theory Spec2Isabelle
  imports Main "HOL-Library.AList"
begin

section \<open>JavaScript values and strings\<close>

text \<open>
  Strings are byte lists.  Every character the engine inspects (braces, word characters,
  the double quote, the backslash) is ASCII, so substring tests and the placeholder
  pattern behave on the UTF-8 bytes as they do on JavaScript's code units.

  \<open>js_value\<close> stands for the values typed \<open>any\<close> in the source: metadata entries,
  annotation flags and the argument of \<open>formatYamlValue\<close>.  \<open>JNum\<close> carries the
  integer-valued numbers (below \<open>10^21\<close> in size, where JavaScript prints them in plain
  decimal notation), \<open>JObject\<close> a plain object without a \<open>toString\<close> of its own.
\<close>

datatype js_value =
    JUndefined
  | JNull
  | JBool bool
  | JNum int
  | JStr string
  | JArr \<open>js_value list\<close>
  | JObject

text \<open>Truthiness, as \<open>if (v)\<close>, \<open>v && ...\<close> and \<open>v || ...\<close> read it.\<close>

fun truthy :: \<open>js_value \<Rightarrow> bool\<close> where
  \<open>truthy JUndefined = False\<close>
| \<open>truthy JNull = False\<close>
| \<open>truthy (JBool b) = b\<close>
| \<open>truthy (JNum n) = (n \<noteq> 0)\<close>
| \<open>truthy (JStr s) = (s \<noteq> [])\<close>
| \<open>truthy (JArr vs) = True\<close>
| \<open>truthy JObject = True\<close>

text \<open>\<open>Array.prototype.join\<close> on strings.\<close>

fun join :: \<open>string \<Rightarrow> string list \<Rightarrow> string\<close> where
  \<open>join sep [] = []\<close>
| \<open>join sep [x] = x\<close>
| \<open>join sep (x # y # ys) = x @ sep @ join sep (y # ys)\<close>

text \<open>\<open>String.prototype.includes\<close>: the argument occurs as a contiguous substring.\<close>

fun starts_with :: \<open>string \<Rightarrow> string \<Rightarrow> bool\<close> where
  \<open>starts_with s [] = True\<close>
| \<open>starts_with [] (p # ps) = False\<close>
| \<open>starts_with (c # cs) (p # ps) = (c = p \<and> starts_with cs ps)\<close>

fun includes_str :: \<open>string \<Rightarrow> string \<Rightarrow> bool\<close> where
  \<open>includes_str [] x = (x = [])\<close>
| \<open>includes_str (c # cs) x = (starts_with (c # cs) x \<or> includes_str cs x)\<close>

text \<open>Decimal digits of a natural number, most significant first.\<close>

function string_of_nat :: \<open>nat \<Rightarrow> string\<close> where
  \<open>string_of_nat n =
     (if n < 10 then [char_of (48 + n)]
      else string_of_nat (n div 10) @ [char_of (48 + n mod 10)])\<close>
  by pat_completeness auto
termination
  by (relation \<open>measure id\<close>) auto

definition string_of_int :: \<open>int \<Rightarrow> string\<close> where
  \<open>string_of_int i = (if i < 0 then ''-'' @ string_of_nat (nat (- i)) else string_of_nat (nat i))\<close>

text \<open>
  \<open>String(v)\<close>, which is also what a template literal does to an interpolated value.
  An array prints its elements joined by a comma, with \<open>null\<close> and \<open>undefined\<close>
  elements printed as nothing.
\<close>

fun to_String :: \<open>js_value \<Rightarrow> string\<close> where
  \<open>to_String JUndefined = ''undefined''\<close>
| \<open>to_String JNull = ''null''\<close>
| \<open>to_String (JBool b) = (if b then ''true'' else ''false'')\<close>
| \<open>to_String (JNum n) = string_of_int n\<close>
| \<open>to_String (JStr s) = s\<close>
| \<open>to_String (JArr vs) =
     join '','' (map (\<lambda>v. if v = JUndefined \<or> v = JNull then [] else to_String v) vs)\<close>
| \<open>to_String JObject = ''[object Object]''\<close>

section \<open>The frontmatter value formatter\<close>

text \<open>\<open>value.replace(/"/g, '\\"')\<close>: every double quote gets a backslash before it.\<close>

fun escape_quotes :: \<open>string \<Rightarrow> string\<close> where
  \<open>escape_quotes [] = []\<close>
| \<open>escape_quotes (c # cs) =
     (if c = CHR 0x22 then CHR 0x5C # CHR 0x22 # escape_quotes cs else c # escape_quotes cs)\<close>

text \<open>
  \<open>formatYamlValue\<close> of \<open>helpers.ts\<close>: the array branch comes first and wraps each
  element's string conversion in double quotes; only the string branch escapes.
\<close>

fun formatYamlValue :: \<open>js_value \<Rightarrow> string\<close> where
  \<open>formatYamlValue (JArr vs) =
     ''['' @ join '', '' (map (\<lambda>v. [CHR 0x22] @ to_String v @ [CHR 0x22]) vs) @ '']''\<close>
| \<open>formatYamlValue (JStr s) = [CHR 0x22] @ escape_quotes s @ [CHR 0x22]\<close>
| \<open>formatYamlValue v = to_String v\<close>

section \<open>The document and the engine's data\<close>

text \<open>
  \<open>ContextMetadata\<close> and \<open>PageProperties\<close> are string-keyed objects; the engine
  merges the first by spreading and only stores the second.
\<close>

type_synonym ContextMetadata = \<open>string \<rightharpoonup> js_value\<close>

type_synonym PageProperties = \<open>string \<rightharpoonup> js_value\<close>

text \<open>
  A rich-text span.  \<open>annotations\<close> lists the entries of the span's annotation object
  in the order \<open>Object.entries\<close> yields them; \<open>href\<close> is \<open>None\<close> for \<open>null\<close>.
\<close>

record RichTextItem =
  plain_text :: string
  href :: \<open>string option\<close>
  annotations :: \<open>(string \<times> js_value) list\<close>

text \<open>
  A block: its type tag (absent on a partial block, which is why the source reads it
  under \<open>@ts-ignore\<close>), its rich text and its children.
\<close>

datatype Block = Block (block_type: \<open>string option\<close>) (rich_text: \<open>RichTextItem list\<close>) (children: \<open>Block list\<close>)

text \<open>The property key that \<open>blocks[block.type]\<close> looks up.\<close>

definition type_key :: \<open>Block \<Rightarrow> string\<close> where
  \<open>type_key b = (case block_type b of None \<Rightarrow> ''undefined'' | Some t \<Rightarrow> t)\<close>

text \<open>
  What a \<open>throw\<close> carries: an \<open>Error\<close> instance with its message, or any other value.
  \<open>error_message\<close> is the source's
  \<open>error instanceof Error ? error.message : String(error)\<close>.
\<close>

datatype thrown = ErrorObj string | Thrown js_value

fun error_message :: \<open>thrown \<Rightarrow> string\<close> where
  \<open>error_message (ErrorObj m) = m\<close>
| \<open>error_message (Thrown v) = to_String v\<close>

text \<open>
  The variable collector is a JavaScript \<open>Map\<close> from variable names to fragment
  arrays: an association list in insertion order, where \<open>set\<close> on a present key
  replaces the value in place (\<open>AList.update\<close>) and \<open>get\<close> is \<open>map_of\<close>.
\<close>

type_synonym VariableCollector = \<open>(string \<times> string list) list\<close>

record RendererContext =
  pageId :: string
  pageProperties :: PageProperties
  metadata :: ContextMetadata
  block :: Block
  blockTree :: \<open>Block list\<close>
  variableData :: VariableCollector

text \<open>
  A block transformer.  \<open>transform\<close> receives the per-block context, whose
  \<open>variableData\<close> is the engine's own collector map, and may write to it, directly or by
  calling back into the engine through \<open>utils\<close>; so it returns the collector map it
  leaves behind together with its output or the value it throws.  The registries and
  \<open>utils\<close> that the source also hangs on the context are fields of the engine here.
\<close>

record BlockTransformer =
  transform :: \<open>RendererContext \<Rightarrow> (thrown + string) \<times> VariableCollector\<close>
  bt_imports :: \<open>string list option\<close>
  targetVariable :: \<open>string option\<close>

text \<open>The argument object of an annotation transformer's \<open>transform\<close>.\<close>

record AnnotationArgs =
  a_text :: string
  a_annotations :: \<open>(string \<times> js_value) list option\<close>
  a_link :: \<open>string option\<close>
  a_metadata :: \<open>ContextMetadata option\<close>

text \<open>
  Annotation transformers and variable resolvers are asynchronous functions that
  resolve with a string or reject; they are taken to compute this from their
  arguments, without writing to the engine.
\<close>

type_synonym AnnotationTransformer = \<open>AnnotationArgs \<Rightarrow> thrown + string\<close>

type_synonym VariableResolver = \<open>string \<Rightarrow> RendererContext \<Rightarrow> thrown + string\<close>

record BlockTree =
  blocks :: \<open>Block list\<close>
  properties :: PageProperties

record ChainData =
  d_pageId :: string
  d_blockTree :: BlockTree
  d_metadata :: \<open>ContextMetadata option\<close>
  d_content :: \<open>string option\<close>

text \<open>
  The state of a \<open>BaseRendererPlugin\<close> instance.  \<open>variableDataCollector\<close> and
  \<open>context.variableData\<close> are one \<open>Map\<close> object in the source, hence one field here.
  \<open>next_node\<close> is the \<open>process\<close> of the next chain node, if any.  The two
  registries are plain objects indexed by block type and annotation name; property
  names that every object inherits (such as \<open>constructor\<close>) are not block types or
  annotation names and are left out.
\<close>

text \<open>
  What calling the next node's \<open>process\<close> does: it throws before returning, or it
  returns a promise that rejects or resolves.
\<close>

datatype next_outcome = SyncThrow thrown | Returned \<open>thrown + ChainData\<close>

record BaseRendererPlugin =
  template :: string
  variableResolvers :: \<open>string \<rightharpoonup> VariableResolver\<close>
  ctx :: RendererContext
  blockTransformers :: \<open>string \<rightharpoonup> BlockTransformer\<close>
  annotationTransformers :: \<open>string \<rightharpoonup> AnnotationTransformer\<close>
  next_node :: \<open>(ChainData \<Rightarrow> next_outcome) option\<close>

definition variableDataCollector :: \<open>BaseRendererPlugin \<Rightarrow> VariableCollector\<close> where
  \<open>variableDataCollector e = variableData (ctx e)\<close>

definition set_collectors :: \<open>VariableCollector \<Rightarrow> BaseRendererPlugin \<Rightarrow> BaseRendererPlugin\<close> where
  \<open>set_collectors c e = e\<lparr>ctx := (ctx e)\<lparr>variableData := c\<rparr>\<rparr>\<close>

definition has_collector :: \<open>BaseRendererPlugin \<Rightarrow> string \<Rightarrow> bool\<close> where
  \<open>has_collector e name = (map_of (variableDataCollector e) name \<noteq> None)\<close>

text \<open>
  \<open>...metadata\<close> inside an object literal: spreading \<open>undefined\<close> adds nothing.
  In \<open>{...a, ...b}\<close> the entries of \<open>b\<close> override those of \<open>a\<close>, which is \<open>a ++ b\<close>.
\<close>

definition spread :: \<open>ContextMetadata option \<Rightarrow> ContextMetadata\<close> where
  \<open>spread md = (case md of None \<Rightarrow> Map.empty | Some m \<Rightarrow> m)\<close>

section \<open>Variables and imports\<close>

definition addMetadata :: \<open>string \<Rightarrow> js_value \<Rightarrow> BaseRendererPlugin \<Rightarrow> BaseRendererPlugin\<close> where
  \<open>addMetadata key v e = e\<lparr>ctx := (ctx e)\<lparr>metadata := (metadata (ctx e))(key \<mapsto> v)\<rparr>\<rparr>\<close>

definition addVariable :: \<open>string \<Rightarrow> VariableResolver option \<Rightarrow> BaseRendererPlugin \<Rightarrow> BaseRendererPlugin\<close> where
  \<open>addVariable name resolver e =
     (let e1 = (if \<not> has_collector e name
                then set_collectors (AList.update name [] (variableDataCollector e)) e
                else e)
      in case resolver of
           Some r \<Rightarrow> e1\<lparr>variableResolvers := (variableResolvers e1)(name \<mapsto> r)\<rparr>
         | None \<Rightarrow> e1)\<close>

text \<open>The body of the \<open>forEach\<close> in \<open>addImports\<close>: push unless already included.\<close>

definition push_import :: \<open>string \<Rightarrow> string list \<Rightarrow> string list\<close> where
  \<open>push_import imp importCollector =
     (if imp \<in> set importCollector then importCollector else importCollector @ [imp])\<close>

text \<open>\<open>this.variableDataCollector.get('imports') || []\<close>.\<close>

definition imports_array :: \<open>BaseRendererPlugin \<Rightarrow> string list\<close> where
  \<open>imports_array e =
     (case map_of (variableDataCollector e) ''imports'' of Some v \<Rightarrow> v | None \<Rightarrow> [])\<close>

definition addImports :: \<open>string list \<Rightarrow> BaseRendererPlugin \<Rightarrow> BaseRendererPlugin\<close> where
  \<open>addImports imps e =
     (let importCollector = imports_array e
      in set_collectors
           (AList.update ''imports'' (fold push_import imps importCollector) (variableDataCollector e)) e)\<close>

definition addToCollector :: \<open>string \<Rightarrow> string \<Rightarrow> BaseRendererPlugin \<Rightarrow> BaseRendererPlugin\<close> where
  \<open>addToCollector variable content e =
     (let e1 = (if \<not> has_collector e variable
                then set_collectors (AList.update variable [] (variableDataCollector e)) e
                else e);
          collector = (case map_of (variableDataCollector e1) variable of Some v \<Rightarrow> v | None \<Rightarrow> [])
      in set_collectors (AList.update variable (collector @ [content]) (variableDataCollector e1)) e1)\<close>

definition defaultResolver :: VariableResolver where
  \<open>defaultResolver variableName context =
     Inr (join [CHR 0x0A]
            (case map_of (variableData context) variableName of Some v \<Rightarrow> v | None \<Rightarrow> []))\<close>

definition initializeDefaultVariables :: \<open>BaseRendererPlugin \<Rightarrow> BaseRendererPlugin\<close> where
  \<open>initializeDefaultVariables e =
     addVariable ''content'' (Some defaultResolver) (addVariable ''imports'' (Some defaultResolver) e)\<close>

section \<open>The template\<close>

text \<open>The class \<open>\w\<close> of the placeholder pattern: ASCII letters, digits and the underscore.\<close>

definition is_word_char :: \<open>char \<Rightarrow> bool\<close> where
  \<open>is_word_char c \<longleftrightarrow>
     c \<in> set ''abcdefghijklmnopqrstuvwxyzABCDEFGHIJKLMNOPQRSTUVWXYZ0123456789_''\<close>

text \<open>
  One attempt of the pattern \<open>{{{(\w+)}}}\<close> at the start of a string: the captured
  name and what follows the match.  The greedy \<open>\w+\<close> takes every word character; a
  shorter take would have to be followed by a closing brace where a word character
  stands, so backtracking never finds a match that this does not.
\<close>

definition match_placeholder :: \<open>string \<Rightarrow> (string \<times> string) option\<close> where
  \<open>match_placeholder s =
     (if take 3 s = ''{{{''
      then (let name = takeWhile is_word_char (drop 3 s);
                rest = dropWhile is_word_char (drop 3 s)
            in if name \<noteq> [] \<and> take 3 rest = ''}}}'' then Some (name, drop 3 rest) else None)
      else None)\<close>

lemma match_placeholder_shorter:
  \<open>match_placeholder s = Some (name, rest) \<Longrightarrow> length rest < length s\<close>
proof -
  assume m: \<open>match_placeholder s = Some (name, rest)\<close>
  then have t: \<open>take 3 s = ''{{{''\<close>
    by (simp add: match_placeholder_def split: if_splits)
  then have l: \<open>3 \<le> length s\<close>
    by (cases \<open>3 \<le> length s\<close>) auto
  from m t have \<open>rest = drop 3 (dropWhile is_word_char (drop 3 s))\<close>
    by (simp add: match_placeholder_def Let_def split: if_splits)
  moreover have \<open>length (dropWhile is_word_char (drop 3 s)) \<le> length (drop 3 s)\<close>
    by (rule length_dropWhile_le)
  ultimately have \<open>length rest \<le> length s - 3\<close>
    by simp
  with l show ?thesis by simp
qed

text \<open>
  \<open>template.match(/{{{(\w+)}}}/g) || []\<close>: the matched substrings, scanning from the
  left and resuming after each match.
\<close>

function template_match :: \<open>string \<Rightarrow> string list\<close> where
  \<open>template_match [] = []\<close>
| \<open>template_match (c # cs) =
     (case match_placeholder (c # cs) of
        Some (name, rest) \<Rightarrow> (''{{{'' @ name @ ''}}}'') # template_match rest
      | None \<Rightarrow> template_match cs)\<close>
  by pat_completeness auto
termination
  by (relation \<open>measure length\<close>) (auto dest: match_placeholder_shorter)

text \<open>
  \<open>variable.replace(/{{{|}}}/, '')\<close>: the pattern has no \<open>g\<close> flag, so only the
  leftmost occurrence of either brace triple is removed.
\<close>

fun strip_braces :: \<open>string \<Rightarrow> string\<close> where
  \<open>strip_braces [] = []\<close>
| \<open>strip_braces (c # cs) =
     (if starts_with (c # cs) ''{{{'' \<or> starts_with (c # cs) ''}}}''
      then drop 3 (c # cs)
      else c # strip_braces cs)\<close>

definition initializeTemplateVariables :: \<open>BaseRendererPlugin \<Rightarrow> BaseRendererPlugin\<close> where
  \<open>initializeTemplateVariables e =
     fold (\<lambda>variable. addVariable (strip_braces variable) None) (template_match (template e)) e\<close>

text \<open>
  \<open>validateTemplate\<close>: the \<open>forEach\<close> over the required names throws at the first
  one whose placeholder the template does not include.
\<close>

fun check_required :: \<open>string \<Rightarrow> string list \<Rightarrow> thrown option\<close> where
  \<open>check_required t [] = None\<close>
| \<open>check_required t (name # names) =
     (if \<not> includes_str t (''{{{'' @ name @ ''}}}'')
      then Some (ErrorObj (''Template must contain '' @ name @ '' variable''))
      else check_required t names)\<close>

definition validateTemplate :: \<open>string \<Rightarrow> thrown option\<close> where
  \<open>validateTemplate t = check_required t [''content'', ''imports'']\<close>

definition setTemplate :: \<open>string \<Rightarrow> BaseRendererPlugin \<Rightarrow> thrown + BaseRendererPlugin\<close> where
  \<open>setTemplate t e =
     (case validateTemplate t of
        Some err \<Rightarrow> Inl err
      | None \<Rightarrow> Inr (initializeTemplateVariables (e\<lparr>template := t\<rparr>)))\<close>

definition validateAndInitializeTemplate :: \<open>BaseRendererPlugin \<Rightarrow> thrown + BaseRendererPlugin\<close> where
  \<open>validateAndInitializeTemplate e =
     (if template e = [] then Inl (ErrorObj ''Template must be defined'')
      else case validateTemplate (template e) of
             Some err \<Rightarrow> Inl err
           | None \<Rightarrow> Inr (initializeTemplateVariables (initializeDefaultVariables e)))\<close>

text \<open>
  The constructor takes no argument.  The field initialisers and the initial context
  give \<open>initial_plugin\<close>, whose template is the built-in default; the constructor body
  then registers the default variables and validates that template.
\<close>

definition initial_plugin :: BaseRendererPlugin where
  \<open>initial_plugin =
     \<lparr>template = ''{{{imports}}}'' @ [CHR 0x0A] @ ''{{{content}}}'',
      variableResolvers = Map.empty,
      ctx = \<lparr>pageId = [], pageProperties = Map.empty, metadata = Map.empty,
             block = Block None [] [], blockTree = [], variableData = []\<rparr>,
      blockTransformers = Map.empty,
      annotationTransformers = Map.empty,
      next_node = None\<rparr>\<close>

definition construct :: \<open>thrown + BaseRendererPlugin\<close> where
  \<open>construct = validateAndInitializeTemplate (initializeDefaultVariables initial_plugin)\<close>


definition createBlockTransformer :: \<open>string \<Rightarrow> BlockTransformer \<Rightarrow> BaseRendererPlugin \<Rightarrow> BaseRendererPlugin\<close> where
  \<open>createBlockTransformer ty t e = e\<lparr>blockTransformers := (blockTransformers e)(ty \<mapsto> t)\<rparr>\<close>

definition createAnnotationTransformer :: \<open>string \<Rightarrow> AnnotationTransformer \<Rightarrow> BaseRendererPlugin \<Rightarrow> BaseRendererPlugin\<close> where
  \<open>createAnnotationTransformer name t e =
     e\<lparr>annotationTransformers := (annotationTransformers e)(name \<mapsto> t)\<rparr>\<close>

text \<open>
  \<open>renderTemplate\<close>: the loop over the collector map's entries resolves each variable
  with its registered resolver or the default one and stops at the first resolver
  that throws; the substitution pass then replaces every placeholder match by the
  resolved value, or by the empty string where there is none.  The resolved values
  sit in a plain object; placeholder names that every object inherits (such as
  \<open>constructor\<close>) are left out, as in the registries.
\<close>

fun resolve_variables ::
  \<open>BaseRendererPlugin \<Rightarrow> VariableCollector \<Rightarrow> (string \<times> string) list \<Rightarrow> thrown + (string \<times> string) list\<close> where
  \<open>resolve_variables e [] resolved = Inr resolved\<close>
| \<open>resolve_variables e ((name, collector) # entries) resolved =
     (let resolver = (case variableResolvers e name of Some r \<Rightarrow> r | None \<Rightarrow> defaultResolver)
      in case resolver name (ctx e) of
           Inl err \<Rightarrow> Inl err
         | Inr v \<Rightarrow> resolve_variables e entries (AList.update name v resolved))\<close>

function replace_placeholders :: \<open>(string \<Rightarrow> string) \<Rightarrow> string \<Rightarrow> string\<close> where
  \<open>replace_placeholders f [] = []\<close>
| \<open>replace_placeholders f (c # cs) =
     (case match_placeholder (c # cs) of
        Some (name, rest) \<Rightarrow> f name @ replace_placeholders f rest
      | None \<Rightarrow> c # replace_placeholders f cs)\<close>
  by pat_completeness auto
termination
  by (relation \<open>measure (\<lambda>(f, s). length s)\<close>) (auto dest: match_placeholder_shorter)

definition renderTemplate :: \<open>BaseRendererPlugin \<Rightarrow> thrown + string\<close> where
  \<open>renderTemplate e =
     (case resolve_variables e (variableDataCollector e) [] of
        Inl err \<Rightarrow> Inl err
      | Inr resolved \<Rightarrow>
          Inr (replace_placeholders
                 (\<lambda>name. case map_of resolved name of Some v \<Rightarrow> v | None \<Rightarrow> [])
                 (template e)))\<close>

section \<open>Rich text\<close>

text \<open>
  The message of the \<open>TypeError\<close> that reading \<open>.transform\<close> of an absent
  \<open>annotations.link\<close> throws, in V8's wording.
\<close>

definition link_TypeError :: thrown where
  \<open>link_TypeError = ErrorObj ''Cannot read properties of undefined (reading 'transform')''\<close>

text \<open>
  The \<open>for\<close> loop over \<open>Object.entries(item.annotations)\<close>: an entry whose value is
  truthy and whose name has a registered transformer rewrites the text; the loop ends
  at the first transformer that throws.
\<close>

fun apply_annotations ::
  \<open>BaseRendererPlugin \<Rightarrow> RichTextItem \<Rightarrow> ContextMetadata option \<Rightarrow> (string \<times> js_value) list \<Rightarrow> string \<Rightarrow> thrown + string\<close> where
  \<open>apply_annotations e item md [] txt = Inr txt\<close>
| \<open>apply_annotations e item md ((name, v) # entries) txt =
     (case annotationTransformers e name of
        Some t \<Rightarrow>
          (if truthy v
           then (case t \<lparr>a_text = txt, a_annotations = Some (annotations item),
                         a_link = None, a_metadata = md\<rparr> of
                   Inl err \<Rightarrow> Inl err
                 | Inr txt' \<Rightarrow> apply_annotations e item md entries txt')
           else apply_annotations e item md entries txt)
      | None \<Rightarrow> apply_annotations e item md entries txt)\<close>

text \<open>The callback that \<open>processRichText\<close> maps over the spans.\<close>

definition processRichTextItem ::
  \<open>BaseRendererPlugin \<Rightarrow> ContextMetadata option \<Rightarrow> RichTextItem \<Rightarrow> thrown + string\<close> where
  \<open>processRichTextItem e md item =
     (case apply_annotations e item md (annotations item) (plain_text item) of
        Inl err \<Rightarrow> Inl err
      | Inr txt \<Rightarrow>
          (case href item of
             None \<Rightarrow> Inr txt
           | Some url \<Rightarrow>
               if url = [] then Inr txt
               else (case annotationTransformers e ''link'' of
                       None \<Rightarrow> Inl link_TypeError
                     | Some t \<Rightarrow>
                         t \<lparr>a_text = txt, a_annotations = None,
                            a_link = Some url, a_metadata = None\<rparr>)))\<close>

text \<open>
  \<open>Promise.all\<close>: the results in input order, or a rejection when a callback rejects.
  When several spans reject, which rejection surfaces depends on how their
  continuations are scheduled; this returns the one of the first such span.
\<close>

fun promise_all :: \<open>(thrown + string) list \<Rightarrow> thrown + string list\<close> where
  \<open>promise_all [] = Inr []\<close>
| \<open>promise_all (Inl err # rs) = Inl err\<close>
| \<open>promise_all (Inr x # rs) = (case promise_all rs of Inl err \<Rightarrow> Inl err | Inr xs \<Rightarrow> Inr (x # xs))\<close>

definition processRichText ::
  \<open>BaseRendererPlugin \<Rightarrow> RichTextItem list \<Rightarrow> ContextMetadata option \<Rightarrow> thrown + string\<close> where
  \<open>processRichText e richText md =
     (case promise_all (map (processRichTextItem e md) richText) of
        Inl err \<Rightarrow> Inl err
      | Inr results \<Rightarrow> Inr (join [] results))\<close>

section \<open>Blocks and the pipeline\<close>

text \<open>The context handed to a block's transformer.\<close>

definition blockContext :: \<open>BaseRendererPlugin \<Rightarrow> Block \<Rightarrow> ContextMetadata option \<Rightarrow> RendererContext\<close> where
  \<open>blockContext e b md =
     (ctx e)\<lparr>block := b,
             metadata := metadata (ctx e) ++ spread md\<rparr>\<close>

text \<open>
  \<open>processBlock\<close> returns what the promise settles with and the engine as the call
  leaves it; a rejected call keeps the collector writes made before the throw.
\<close>

definition processBlock ::
  \<open>BaseRendererPlugin \<Rightarrow> Block \<Rightarrow> ContextMetadata option \<Rightarrow> (thrown + string) \<times> BaseRendererPlugin\<close> where
  \<open>processBlock e b md =
     (case blockTransformers e (type_key b) of
        None \<Rightarrow> (Inr [], e)
      | Some transformer \<Rightarrow>
          (case transform transformer (blockContext e b md) of
             (Inl err, c) \<Rightarrow>
               (Inl (ErrorObj (''Failed to process block: '' @ error_message err)), set_collectors c e)
           | (Inr output, c) \<Rightarrow>
               (let e1 = set_collectors c e;
                    e2 = (case bt_imports transformer of
                            None \<Rightarrow> e1
                          | Some imps \<Rightarrow> if imps = [] then e1 else addImports imps e1);
                    target = (case targetVariable transformer of
                                None \<Rightarrow> ''content''
                              | Some tv \<Rightarrow> if tv = [] then ''content'' else tv);
                    e3 = (if \<not> has_collector e2 target then addVariable target None e2 else e2)
                in (Inr output, addToCollector target output e3))))\<close>

text \<open>
  \<open>resetCollectors\<close>: every key of the map is set again, to the saved imports array
  under \<open>imports\<close> and to a new empty array otherwise.
\<close>

definition resetCollectors :: \<open>BaseRendererPlugin \<Rightarrow> BaseRendererPlugin\<close> where
  \<open>resetCollectors e =
     (let imps = imports_array e
      in set_collectors
           (fold (\<lambda>name. AList.update name (if name = ''imports'' then imps else []))
                 (map fst (variableDataCollector e))
                 (variableDataCollector e))
           e)\<close>

definition updateContext :: \<open>ChainData \<Rightarrow> BaseRendererPlugin \<Rightarrow> BaseRendererPlugin\<close> where
  \<open>updateContext data e =
     e\<lparr>ctx := (ctx e)\<lparr>pageId := d_pageId data,
                        pageProperties := properties (d_blockTree data),
                        blockTree := blocks (d_blockTree data),
                        metadata := metadata (ctx e) ++ spread (d_metadata data)\<rparr>\<rparr>\<close>

text \<open>The \<open>for\<close> loop of \<open>process\<close>: one block after the other, up to the first rejection.\<close>

fun process_blocks :: \<open>BaseRendererPlugin \<Rightarrow> Block list \<Rightarrow> thrown option \<times> BaseRendererPlugin\<close> where
  \<open>process_blocks e [] = (None, e)\<close>
| \<open>process_blocks e (b # bs) =
     (case processBlock e b None of
        (Inl err, e') \<Rightarrow> (Some err, e')
      | (Inr output, e') \<Rightarrow> process_blocks e' bs)\<close>

text \<open>
  \<open>process\<close>.  Whatever is thrown while the context is refreshed, the blocks are
  processed and the template is rendered is caught and thrown again under the prefix
  \<open>Renderer failed: \<close>; so is what the call of the next node throws before it
  returns.  The promise the next node returns is returned without being awaited, so
  its rejection passes through as it is.
\<close>

definition process :: \<open>BaseRendererPlugin \<Rightarrow> ChainData \<Rightarrow> (thrown + ChainData) \<times> BaseRendererPlugin\<close> where
  \<open>process e data =
     (let e1 = resetCollectors (updateContext data e)
      in case process_blocks e1 (blocks (d_blockTree data)) of
           (Some err, e2) \<Rightarrow> (Inl (ErrorObj (''Renderer failed: '' @ error_message err)), e2)
         | (None, e2) \<Rightarrow>
             (case renderTemplate e2 of
                Inl err \<Rightarrow> (Inl (ErrorObj (''Renderer failed: '' @ error_message err)), e2)
              | Inr content \<Rightarrow>
                  (let data' = data\<lparr>d_content := Some content\<rparr>
                   in case next_node e2 of
                        None \<Rightarrow> (Inr data', e2)
                      | Some nxt \<Rightarrow>
                          (case nxt data' of
                             SyncThrow err \<Rightarrow>
                               (Inl (ErrorObj (''Renderer failed: '' @ error_message err)), e2)
                           | Returned promise \<Rightarrow> (promise, e2)))))\<close>

section \<open>The MDX annotation transformers\<close>

text \<open>
  Three entries of \<open>annotationTransformers\<close> in \<open>annotations.ts\<close>.  \<open>metadata_html\<close>
  is the truthiness of \<open>metadata?.html\<close>.
\<close>

definition metadata_html :: \<open>ContextMetadata option \<Rightarrow> bool\<close> where
  \<open>metadata_html md =
     (case md of
        None \<Rightarrow> False
      | Some m \<Rightarrow> (case m ''html'' of None \<Rightarrow> False | Some v \<Rightarrow> truthy v))\<close>

definition mdx_bold :: AnnotationTransformer where
  \<open>mdx_bold args =
     Inr (if \<not> metadata_html (a_metadata args) then ''**'' @ a_text args @ ''**''
          else ''<strong>'' @ a_text args @ ''</strong>'')\<close>

definition mdx_italic :: AnnotationTransformer where
  \<open>mdx_italic args =
     Inr (if \<not> metadata_html (a_metadata args) then ''*'' @ a_text args @ ''*''
          else ''<i>'' @ a_text args @ ''</i>'')\<close>

definition mdx_link :: AnnotationTransformer where
  \<open>mdx_link args =
     (case a_link args of
        None \<Rightarrow> Inr (a_text args)
      | Some url \<Rightarrow>
          if url = [] then Inr (a_text args)
          else Inr (if \<not> metadata_html (a_metadata args)
                    then ''['' @ a_text args @ '']('' @ url @ '')''
                    else ''<a href='' @ [CHR 0x22] @ url @ [CHR 0x22] @ ''>'' @ a_text args @ ''</a>''))\<close>

section \<open>Instances\<close>

text \<open>A freshly constructed engine.\<close>

definition new_plugin :: BaseRendererPlugin where
  \<open>new_plugin = projr construct\<close>

text \<open>An engine whose \<open>paragraph\<close> transformer throws \<open>new Error('boom')\<close>, and a page for it.\<close>

definition failing_transformer :: BlockTransformer where
  \<open>failing_transformer =
     \<lparr>transform = (\<lambda>c. (Inl (ErrorObj ''boom''), variableData c)),
      bt_imports = None, targetVariable = None\<rparr>\<close>

definition failing_plugin :: BaseRendererPlugin where
  \<open>failing_plugin = createBlockTransformer ''paragraph'' failing_transformer new_plugin\<close>

definition failing_data :: ChainData where
  \<open>failing_data =
     \<lparr>d_pageId = ''page'',
      d_blockTree = \<lparr>blocks = [Block (Some ''divider'') [] [], Block (Some ''paragraph'') [] []],
                     properties = Map.empty\<rparr>,
      d_metadata = None, d_content = None\<rparr>\<close>

text \<open>An engine with the bold, italic and link transformers, and a bold italic linked span.\<close>

definition mdx_plugin :: BaseRendererPlugin where
  \<open>mdx_plugin =
     createAnnotationTransformer ''link'' mdx_link
       (createAnnotationTransformer ''italic'' mdx_italic
          (createAnnotationTransformer ''bold'' mdx_bold new_plugin))\<close>

definition hello_span :: RichTextItem where
  \<open>hello_span =
     \<lparr>plain_text = ''Hello'', href = Some ''https://example.com'',
      annotations = [(''bold'', JBool True), (''italic'', JBool True),
                     (''strikethrough'', JBool False), (''underline'', JBool False),
                     (''code'', JBool False), (''color'', JStr ''default'')]\<rparr>\<close>

text \<open>A span without annotations or link.\<close>

definition plain_span :: RichTextItem where
  \<open>plain_span =
     \<lparr>plain_text = ''Say '', href = None,
      annotations = [(''bold'', JBool False), (''italic'', JBool False),
                     (''strikethrough'', JBool False), (''underline'', JBool False),
                     (''code'', JBool False), (''color'', JStr ''default'')]\<rparr>\<close>

text \<open>
  An engine whose \<open>image\<close> transformer declares the import \<open>ImageComponent\<close>, a page
  with an image, and a page with a paragraph, for which that engine has no
  transformer.
\<close>

definition image_transformer :: BlockTransformer where
  \<open>image_transformer =
     \<lparr>transform = (\<lambda>c. (Inr ''<Image />'', variableData c)),
      bt_imports = Some [''ImageComponent''], targetVariable = None\<rparr>\<close>

definition image_plugin :: BaseRendererPlugin where
  \<open>image_plugin = createBlockTransformer ''image'' image_transformer new_plugin\<close>

definition image_data :: ChainData where
  \<open>image_data =
     \<lparr>d_pageId = ''page-1'',
      d_blockTree = \<lparr>blocks = [Block (Some ''image'') [] []], properties = Map.empty\<rparr>,
      d_metadata = None, d_content = None\<rparr>\<close>

definition text_data :: ChainData where
  \<open>text_data =
     \<lparr>d_pageId = ''page-2'',
      d_blockTree = \<lparr>blocks = [Block (Some ''paragraph'') [] []], properties = Map.empty\<rparr>,
      d_metadata = None, d_content = None\<rparr>\<close>

text \<open>A template with a third placeholder.\<close>

definition title_template :: string where
  \<open>title_template = ''{{{imports}}}'' @ [CHR 0x0A] @ ''{{{content}}}'' @ [CHR 0x0A] @ ''{{{title}}}''\<close>

section \<open>Properties\<close>

subsection \<open>Substrings\<close>

lemma starts_with_iff: \<open>starts_with s x \<longleftrightarrow> (\<exists>q. s = x @ q)\<close>
  by (induction s x rule: starts_with.induct) auto

lemma includes_str_iff: \<open>includes_str s x \<longleftrightarrow> (\<exists>p q. s = p @ x @ q)\<close>
proof (induction s)
  case Nil
  then show ?case by auto
next
  case (Cons c cs)
  have \<open>(\<exists>p q. c # cs = p @ x @ q) \<longleftrightarrow> (\<exists>q. c # cs = x @ q) \<or> (\<exists>p q. cs = p @ x @ q)\<close>
  proof
    assume \<open>\<exists>p q. c # cs = p @ x @ q\<close>
    then obtain p q where pq: \<open>c # cs = p @ x @ q\<close> by blast
    show \<open>(\<exists>q. c # cs = x @ q) \<or> (\<exists>p q. cs = p @ x @ q)\<close>
    proof (cases p)
      case Nil
      with pq show ?thesis by auto
    next
      case (Cons a p')
      with pq have \<open>cs = p' @ x @ q\<close> by simp
      then show ?thesis by blast
    qed
  next
    assume \<open>(\<exists>q. c # cs = x @ q) \<or> (\<exists>p q. cs = p @ x @ q)\<close>
    then show \<open>\<exists>p q. c # cs = p @ x @ q\<close>
    proof
      assume \<open>\<exists>q. c # cs = x @ q\<close>
      then obtain q where \<open>c # cs = [] @ x @ q\<close> by auto
      then show ?thesis by blast
    next
      assume \<open>\<exists>p q. cs = p @ x @ q\<close>
      then obtain p q where \<open>c # cs = (c # p) @ x @ q\<close> by auto
      then show ?thesis by blast
    qed
  qed
  with Cons show ?case by (simp add: starts_with_iff)
qed

lemma includes_str_self: \<open>includes_str s s\<close>
proof -
  have \<open>\<exists>p q. s = p @ s @ q\<close>
    by (rule exI [of _ \<open>[]\<close>], rule exI [of _ \<open>[]\<close>]) simp
  then show ?thesis by (simp only: includes_str_iff)
qed

lemma includes_str_append_left: \<open>includes_str s x \<Longrightarrow> includes_str (p @ s) x\<close>
proof -
  assume \<open>includes_str s x\<close>
  then obtain a b where \<open>s = a @ x @ b\<close>
    by (auto simp: includes_str_iff)
  then have \<open>p @ s = (p @ a) @ x @ b\<close>
    by simp
  then have \<open>\<exists>a' b'. p @ s = a' @ x @ b'\<close>
    by blast
  then show ?thesis by (simp only: includes_str_iff)
qed

subsection \<open>Collector map and metadata under the engine's operations\<close>

lemma variableDataCollector_set_collectors [simp]:
  \<open>variableDataCollector (set_collectors c e) = c\<close>
  by (simp add: variableDataCollector_def set_collectors_def)

lemma set_collectors_twice [simp]:
  \<open>set_collectors c (set_collectors c' e) = set_collectors c e\<close>
  by (simp add: set_collectors_def)

lemma variableDataCollector_updateContext [simp]:
  \<open>variableDataCollector (updateContext d e) = variableDataCollector e\<close>
  by (simp add: variableDataCollector_def updateContext_def)

lemma metadata_set_collectors [simp]: \<open>metadata (ctx (set_collectors c e)) = metadata (ctx e)\<close>
  by (simp add: set_collectors_def)

lemma metadata_addImports [simp]: \<open>metadata (ctx (addImports vs e)) = metadata (ctx e)\<close>
  by (simp add: addImports_def Let_def)

lemma metadata_addVariable [simp]: \<open>metadata (ctx (addVariable n r e)) = metadata (ctx e)\<close>
  by (simp add: addVariable_def Let_def split: option.splits)

lemma metadata_addToCollector [simp]: \<open>metadata (ctx (addToCollector n x e)) = metadata (ctx e)\<close>
  by (simp add: addToCollector_def Let_def)

lemma metadata_resetCollectors [simp]: \<open>metadata (ctx (resetCollectors e)) = metadata (ctx e)\<close>
  by (simp add: resetCollectors_def Let_def)

lemma metadata_updateContext [simp]:
  \<open>metadata (ctx (updateContext d e)) = metadata (ctx e) ++ spread (d_metadata d)\<close>
  by (simp add: updateContext_def)

lemma metadata_processBlock [simp]:
  \<open>metadata (ctx (snd (processBlock e b md))) = metadata (ctx e)\<close>
  by (simp add: processBlock_def Let_def split: option.splits prod.splits sum.splits)

lemma metadata_process_blocks [simp]:
  \<open>metadata (ctx (snd (process_blocks e bs))) = metadata (ctx e)\<close>
proof (induction bs arbitrary: e)
  case Nil
  then show ?case by simp
next
  case (Cons b bs)
  obtain r e' where p: \<open>processBlock e b None = (r, e')\<close>
    by (cases \<open>processBlock e b None\<close>)
  have \<open>metadata (ctx e') = metadata (ctx e)\<close>
    using metadata_processBlock [of e b None] p by simp
  with Cons p show ?case
    by (cases r) simp_all
qed

lemma metadata_process:
  \<open>metadata (ctx (snd (process e d))) = metadata (ctx e) ++ spread (d_metadata d)\<close>
proof -
  let ?e1 = \<open>resetCollectors (updateContext d e)\<close>
  obtain r e2 where p: \<open>process_blocks ?e1 (blocks (d_blockTree d)) = (r, e2)\<close>
    by (cases \<open>process_blocks ?e1 (blocks (d_blockTree d))\<close>)
  have \<open>metadata (ctx e2) = metadata (ctx ?e1)\<close>
    using metadata_process_blocks [of ?e1 \<open>blocks (d_blockTree d)\<close>] p by simp
  moreover have \<open>snd (process e d) = e2\<close>
    using p by (simp add: process_def Let_def split: option.splits sum.splits next_outcome.splits)
  ultimately show ?thesis by simp
qed

lemma process_blocks_append:
  \<open>process_blocks e pre = (None, e1) \<Longrightarrow> process_blocks e (pre @ bs) = process_blocks e1 bs\<close>
proof (induction pre arbitrary: e)
  case Nil
  then show ?case by simp
next
  case (Cons b pre)
  obtain r e' where p: \<open>processBlock e b None = (r, e')\<close>
    by (cases \<open>processBlock e b None\<close>)
  with Cons show ?case
    by (cases r) simp_all
qed

lemma snd_process:
  \<open>snd (process e d)
     = snd (process_blocks (resetCollectors (updateContext d e)) (blocks (d_blockTree d)))\<close>
  by (cases \<open>process_blocks (resetCollectors (updateContext d e)) (blocks (d_blockTree d))\<close>)
     (simp add: process_def Let_def split: option.splits sum.splits next_outcome.splits)

lemma blockTransformers_set_collectors [simp]:
  \<open>blockTransformers (set_collectors c e) = blockTransformers e\<close>
  by (simp add: set_collectors_def)

lemma blockTransformers_resetCollectors [simp]:
  \<open>blockTransformers (resetCollectors e) = blockTransformers e\<close>
  by (simp add: resetCollectors_def Let_def)

lemma blockTransformers_updateContext [simp]:
  \<open>blockTransformers (updateContext d e) = blockTransformers e\<close>
  by (simp add: updateContext_def)

lemma blockTransformers_processBlock [simp]:
  \<open>blockTransformers (snd (processBlock e b md)) = blockTransformers e\<close>
  by (simp add: processBlock_def addImports_def addVariable_def addToCollector_def Let_def
      split: option.splits prod.splits sum.splits)

lemma blockTransformers_process_blocks [simp]:
  \<open>blockTransformers (snd (process_blocks e bs)) = blockTransformers e\<close>
proof (induction bs arbitrary: e)
  case Nil
  then show ?case by simp
next
  case (Cons b bs)
  obtain r e' where p: \<open>processBlock e b None = (r, e')\<close>
    by (cases \<open>processBlock e b None\<close>)
  have \<open>blockTransformers e' = blockTransformers e\<close>
    using blockTransformers_processBlock [of e b None] p by simp
  with Cons p show ?case
    by (cases r) simp_all
qed

lemma process_blocks_no_transformers:
  \<open>\<forall>b \<in> set bs. blockTransformers e (type_key b) = None \<Longrightarrow> process_blocks e bs = (None, e)\<close>
  by (induction bs) (simp_all add: processBlock_def)

subsection \<open>Setting every key of a map again\<close>

lemma map_of_fold_update:
  \<open>map_of (fold (\<lambda>k. AList.update k (f k)) ks c) n =
     (if n \<in> set ks then Some (f n) else map_of c n)\<close>
  by (induction ks arbitrary: c) (auto simp: update_conv')

lemma keys_fold_update:
  \<open>set ks \<subseteq> fst ` set c \<Longrightarrow> map fst (fold (\<lambda>k. AList.update k (f k)) ks c) = map fst c\<close>
proof (induction ks arbitrary: c)
  case Nil
  then show ?case by simp
next
  case (Cons k ks)
  then have k: \<open>k \<in> fst ` set c\<close> and ks: \<open>set ks \<subseteq> fst ` set (AList.update k (f k) c)\<close>
    by (auto simp: dom_update)
  from k have \<open>map fst (AList.update k (f k) c) = map fst c\<close>
    by (simp add: update_keys)
  with Cons.IH [OF ks] show ?case by simp
qed

subsection \<open>The imports array\<close>

lemma set_fold_push_import: \<open>set (fold push_import vs xs) = set xs \<union> set vs\<close>
  by (induction vs arbitrary: xs) (auto simp: push_import_def)

lemma fold_push_import_present: \<open>set vs \<subseteq> set xs \<Longrightarrow> fold push_import vs xs = xs\<close>
  by (induction vs arbitrary: xs) (auto simp: push_import_def)

lemma distinct_fold_push_import: \<open>distinct xs \<Longrightarrow> distinct (fold push_import vs xs)\<close>
  by (induction vs arbitrary: xs) (auto simp: push_import_def)

lemma imports_array_addImports:
  \<open>imports_array (addImports vs e) = fold push_import vs (imports_array e)\<close>
  by (simp add: addImports_def Let_def imports_array_def [of \<open>set_collectors _ _\<close>] update_conv')

lemma addImports_twice: \<open>addImports vs (addImports vs e) = addImports vs e\<close>
proof -
  have \<open>fold push_import vs (fold push_import vs (imports_array e)) = fold push_import vs (imports_array e)\<close>
    by (rule fold_push_import_present) (simp add: set_fold_push_import)
  then show ?thesis
    by (simp add: addImports_def [of vs \<open>addImports vs e\<close>] imports_array_addImports Let_def)
       (simp add: addImports_def Let_def)
qed

lemma distinct_imports_after_calls:
  \<open>distinct (imports_array e) \<Longrightarrow> distinct (imports_array (fold addImports calls e))\<close>
  by (induction calls arbitrary: e) (auto simp: imports_array_addImports distinct_fold_push_import)

subsection \<open>Template validation and rendering\<close>



lemma template_initializeDefaultVariables [simp]:
  \<open>template (initializeDefaultVariables e) = template e\<close>
  by (simp add: initializeDefaultVariables_def addVariable_def set_collectors_def Let_def)

subsection \<open>Rich text\<close>

lemma promise_all_rejects: \<open>Inl err \<in> set rs \<Longrightarrow> \<exists>err'. promise_all rs = Inl err'\<close>
  by (induction rs rule: promise_all.induct) (auto split: sum.splits)

lemma apply_annotations_inactive:
  \<open>\<forall>(n, v) \<in> set rest. \<not> truthy v \<or> annotationTransformers e n = None
   \<Longrightarrow> apply_annotations e item md rest t = Inr t\<close>
  by (induction rest) (auto split: option.splits)

lemma processRichText_single: \<open>processRichText e [item] md = processRichTextItem e md item\<close>
  by (cases \<open>processRichTextItem e md item\<close>) (simp_all add: processRichText_def)

lemma promise_all_resolved: \<open>promise_all (map Inr outs) = Inr outs\<close>
  by (induction outs) simp_all

lemma join_no_separator: \<open>sep = [] \<Longrightarrow> join sep outs = concat outs\<close>
  by (induction sep outs rule: join.induct) simp_all

lemma join_empty_separator: \<open>join [] outs = concat outs\<close>
  by (simp add: join_no_separator)

lemma processRichText_resolved:
  \<open>map (processRichTextItem e md) richText = map Inr outs
   \<Longrightarrow> processRichText e richText md = Inr (concat outs)\<close>
  by (simp add: processRichText_def promise_all_resolved join_empty_separator)

subsection \<open>The constructed engine\<close>

lemmas constructor_defs = construct_def initial_plugin_def validateAndInitializeTemplate_def
  initializeDefaultVariables_def addVariable_def has_collector_def variableDataCollector_def
  set_collectors_def validateTemplate_def initializeTemplateVariables_def match_placeholder_def
  is_word_char_def Let_def

lemma new_plugin_eq:
  \<open>new_plugin = initial_plugin
     \<lparr>variableResolvers := [''imports'' \<mapsto> defaultResolver, ''content'' \<mapsto> defaultResolver],
      ctx := (ctx initial_plugin)\<lparr>variableData :=
        [(''imports'', []), (''content'', []), (''imports}}}'', []), (''content}}}'', [])]\<rparr>\<rparr>\<close>
  by (simp add: new_plugin_def constructor_defs)


section \<open>Properties of the specification\<close>

text \<open>
  C1, as the code has it: whenever the transformer registered for a block throws
  during \<open>processBlock\<close>, for any engine state and any caller metadata, so for a
  top-level block as for a nested one, the call rejects with a new error whose
  message is the fixed prefix \<open>Failed to process block: \<close> followed by the original
  error text; the block's type tag goes to the debug log only and is no part of the
  message.  The message contains the original error text, and every text that the
  thrown error's message already carried, such as the text of an error passed up from
  a block further down.  When the call is one that \<open>process\<close> makes for its
  top-level blocks, \<open>process\<close> rejects with \<open>Renderer failed: \<close> followed by that
  message, which again contains all of this, and it returns no record at all.
\<close>

theorem processBlock_failure_wrapped:
  assumes reg: \<open>blockTransformers e (type_key b) = Some t\<close>
    and fails: \<open>transform t (blockContext e b md) = (Inl err, c)\<close>
  shows \<open>processBlock e b md =
           (Inl (ErrorObj (''Failed to process block: '' @ error_message err)), set_collectors c e)
     \<and> includes_str (''Failed to process block: '' @ error_message err) (error_message err)
     \<and> (\<forall>m. includes_str (error_message err) m
            \<longrightarrow> includes_str (''Failed to process block: '' @ error_message err) m)
     \<and> (md = None
          \<and> blocks (d_blockTree data) = pre @ b # post
          \<and> process_blocks (resetCollectors (updateContext data e0)) pre = (None, e)
        \<longrightarrow> process e0 data =
              (Inl (ErrorObj (''Renderer failed: Failed to process block: '' @ error_message err)),
               set_collectors c e)
            \<and> includes_str (''Renderer failed: Failed to process block: '' @ error_message err)
                 (error_message err)
            \<and> (\<forall>m. includes_str (error_message err) m
                   \<longrightarrow> includes_str
                         (''Renderer failed: Failed to process block: '' @ error_message err) m))\<close>
proof -
  have pb: \<open>processBlock e b md =
           (Inl (ErrorObj (''Failed to process block: '' @ error_message err)), set_collectors c e)\<close>
    using reg fails by (simp add: processBlock_def)
  have inc: \<open>includes_str (p @ error_message err) m\<close>
    if \<open>includes_str (error_message err) m\<close> for p m
    using that by (rule includes_str_append_left)
  have self: \<open>includes_str (p @ error_message err) (error_message err)\<close> for p
    by (rule includes_str_append_left) (rule includes_str_self)
  have pr: \<open>process e0 data =
              (Inl (ErrorObj (''Renderer failed: Failed to process block: '' @ error_message err)),
               set_collectors c e)\<close>
    if top: \<open>md = None \<and> blocks (d_blockTree data) = pre @ b # post
          \<and> process_blocks (resetCollectors (updateContext data e0)) pre = (None, e)\<close>
  proof -
    from pb top have \<open>process_blocks e (b # post) =
           (Some (ErrorObj (''Failed to process block: '' @ error_message err)), set_collectors c e)\<close>
      by simp
    with top
    have \<open>process_blocks (resetCollectors (updateContext data e0)) (blocks (d_blockTree data)) =
           (Some (ErrorObj (''Failed to process block: '' @ error_message err)), set_collectors c e)\<close>
      by (simp add: process_blocks_append)
    then show ?thesis
      by (simp add: process_def Let_def)
  qed
  show ?thesis
  proof (intro conjI impI allI)
    show \<open>processBlock e b md =
           (Inl (ErrorObj (''Failed to process block: '' @ error_message err)), set_collectors c e)\<close>
      by (rule pb)
    show \<open>includes_str (''Failed to process block: '' @ error_message err) (error_message err)\<close>
      by (rule self)
    show \<open>includes_str (''Failed to process block: '' @ error_message err) m\<close>
      if \<open>includes_str (error_message err) m\<close> for m
      using that by (rule inc)
    show \<open>process e0 data =
              (Inl (ErrorObj (''Renderer failed: Failed to process block: '' @ error_message err)),
               set_collectors c e)\<close>
      if \<open>md = None \<and> blocks (d_blockTree data) = pre @ b # post
          \<and> process_blocks (resetCollectors (updateContext data e0)) pre = (None, e)\<close>
      using that by (rule pr)
    show \<open>includes_str (''Renderer failed: Failed to process block: '' @ error_message err)
                 (error_message err)\<close>
      by (rule self)
    show \<open>includes_str (''Renderer failed: Failed to process block: '' @ error_message err) m\<close>
      if \<open>includes_str (error_message err) m\<close> for m
      using that by (rule inc)
  qed
qed

lemmas failing_defs = failing_plugin_def failing_data_def failing_transformer_def new_plugin_eq
  initial_plugin_def createBlockTransformer_def updateContext_def resetCollectors_def
  imports_array_def variableDataCollector_def set_collectors_def processBlock_def type_key_def
  blockContext_def spread_def Let_def

theorem processBlock_failure_wrapped_witness:
  \<open>blockTransformers (resetCollectors (updateContext failing_data failing_plugin))
        (type_key (Block (Some ''paragraph'') [] [])) = Some failing_transformer
   \<and> transform failing_transformer
        (blockContext (resetCollectors (updateContext failing_data failing_plugin))
           (Block (Some ''paragraph'') [] []) None)
      = (Inl (ErrorObj ''boom''),
         variableDataCollector (resetCollectors (updateContext failing_data failing_plugin)))
   \<and> blocks (d_blockTree failing_data)
      = [Block (Some ''divider'') [] []] @ Block (Some ''paragraph'') [] [] # []
   \<and> process_blocks (resetCollectors (updateContext failing_data failing_plugin))
        [Block (Some ''divider'') [] []]
      = (None, resetCollectors (updateContext failing_data failing_plugin))
   \<and> fst (processBlock (resetCollectors (updateContext failing_data failing_plugin))
             (Block (Some ''paragraph'') [] []) None)
      = Inl (ErrorObj ''Failed to process block: boom'')
   \<and> fst (process failing_plugin failing_data)
      = Inl (ErrorObj ''Renderer failed: Failed to process block: boom'')\<close>
proof -
  let ?e1 = \<open>resetCollectors (updateContext failing_data failing_plugin)\<close>
  have h1: \<open>blockTransformers ?e1 (type_key (Block (Some ''paragraph'') [] [])) = Some failing_transformer\<close>
    by (simp add: failing_defs)
  have h2: \<open>transform failing_transformer (blockContext ?e1 (Block (Some ''paragraph'') [] []) None)
      = (Inl (ErrorObj ''boom''), variableDataCollector ?e1)\<close>
    by (simp add: failing_defs)
  have h3: \<open>blocks (d_blockTree failing_data)
      = [Block (Some ''divider'') [] []] @ Block (Some ''paragraph'') [] [] # []\<close>
    by (simp add: failing_data_def)
  have h4: \<open>process_blocks ?e1 [Block (Some ''divider'') [] []] = (None, ?e1)\<close>
    by (simp add: failing_defs)
  note w = processBlock_failure_wrapped [OF h1 h2, where data = failing_data
      and pre = \<open>[Block (Some ''divider'') [] []]\<close> and post = \<open>[]\<close> and ?e0.0 = failing_plugin]
  from w have \<open>fst (processBlock ?e1 (Block (Some ''paragraph'') [] []) None)
      = Inl (ErrorObj ''Failed to process block: boom'')\<close>
    by simp
  moreover from w h3 h4 have \<open>fst (process failing_plugin failing_data)
      = Inl (ErrorObj ''Renderer failed: Failed to process block: boom'')\<close>
    by simp
  ultimately show ?thesis using h1 h2 h3 h4 by blast
qed

text \<open>
  C1 as stated fails: with a \<open>paragraph\<close> transformer that throws \<open>boom\<close>, the
  message \<open>process\<close> rejects with does not contain the block type \<open>paragraph\<close>.
\<close>

theorem process_error_lacks_block_type:
  \<open>fst (process failing_plugin failing_data)
     = Inl (ErrorObj ''Renderer failed: Failed to process block: boom'')
   \<and> \<not> includes_str ''Renderer failed: Failed to process block: boom'' ''paragraph''\<close>
  by (simp add: process_def failing_defs)

text \<open>
  C2 does not hold of the code.  \<open>initializeTemplateVariables\<close> removes only the
  opening brace triple of each match, because its \<open>replace\<close> pattern lacks the \<open>g\<close>
  flag: a placeholder \<open>{{{name}}}\<close> registers the variable \<open>name}}}\<close>.  On a new
  engine, \<open>setTemplate\<close> accepts the template with the placeholders \<open>imports\<close>,
  \<open>content\<close> and \<open>title\<close>, and afterwards the collector map has the keys
  \<open>imports\<close>, \<open>content\<close>, \<open>imports}}}\<close>, \<open>content}}}\<close> and \<open>title}}}\<close>, and none for
  \<open>title\<close>.
\<close>

theorem setTemplate_registers_braced_names:
  \<open>strip_braces (''{{{'' @ name @ ''}}}'') = name @ ''}}}''
   \<and> template_match title_template = [''{{{imports}}}'', ''{{{content}}}'', ''{{{title}}}'']
   \<and> \<not> isl (setTemplate title_template new_plugin)
   \<and> map fst (variableDataCollector (projr (setTemplate title_template new_plugin)))
       = [''imports'', ''content'', ''imports}}}'', ''content}}}'', ''title}}}'']
   \<and> \<not> has_collector (projr (setTemplate title_template new_plugin)) ''title''\<close>
  by (simp add: title_template_def setTemplate_def new_plugin_eq initial_plugin_def
      validateTemplate_def initializeTemplateVariables_def match_placeholder_def is_word_char_def
      addVariable_def has_collector_def variableDataCollector_def set_collectors_def Let_def)

text \<open>
  C3: \<open>resetCollectors\<close> leaves the \<open>imports\<close> collector as it was and makes every
  other registered collector empty, registering and dropping no name.  \<open>process\<close>
  starts with it: the engine a \<open>process\<close> invocation leaves behind is the one its
  block loop leaves behind when started on the refreshed and reset engine, where the
  \<open>imports\<close> collector is what the previous invocation left and every other
  collector is empty.  On a page none of whose blocks has a transformer, that reset
  engine is the outcome of the invocation, with the earlier imports still in place.
\<close>

theorem resetCollectors_keeps_imports:
  \<open>map_of (variableDataCollector (resetCollectors e)) name =
     (if name = ''imports'' then map_of (variableDataCollector e) ''imports''
      else if name \<in> fst ` set (variableDataCollector e) then Some [] else None)
   \<and> map fst (variableDataCollector (resetCollectors e)) = map fst (variableDataCollector e)
   \<and> imports_array (resetCollectors e) = imports_array e
   \<and> imports_array (resetCollectors (updateContext d e)) = imports_array e
   \<and> snd (process e d)
       = snd (process_blocks (resetCollectors (updateContext d e)) (blocks (d_blockTree d)))
   \<and> map_of (variableDataCollector (resetCollectors (updateContext d e))) name =
       (if name = ''imports'' then map_of (variableDataCollector e) ''imports''
        else if name \<in> fst ` set (variableDataCollector e) then Some [] else None)
   \<and> imports_array (resetCollectors (updateContext d2 (snd (process e d))))
       = imports_array (snd (process e d))
   \<and> ((\<forall>b \<in> set (blocks (d_blockTree d)). blockTransformers e (type_key b) = None)
        \<longrightarrow> snd (process e d) = resetCollectors (updateContext d e)
            \<and> imports_array (snd (process e d)) = imports_array e
            \<and> map_of (variableDataCollector (snd (process e d))) name =
                (if name = ''imports'' then map_of (variableDataCollector e) ''imports''
                 else if name \<in> fst ` set (variableDataCollector e) then Some [] else None))\<close>
proof -
  have a: \<open>map_of (variableDataCollector (resetCollectors e)) n =
     (if n = ''imports'' then map_of (variableDataCollector e) ''imports''
      else if n \<in> fst ` set (variableDataCollector e) then Some [] else None)\<close> for n e
    by (auto simp: resetCollectors_def Let_def map_of_fold_update imports_array_def
        map_of_eq_None_iff split: option.splits)
  have b: \<open>map fst (variableDataCollector (resetCollectors e)) = map fst (variableDataCollector e)\<close>
    by (simp add: resetCollectors_def Let_def keys_fold_update)
  have c: \<open>imports_array (resetCollectors e) = imports_array e\<close> for e
    by (simp add: imports_array_def [of \<open>resetCollectors e\<close>] a) (simp add: imports_array_def)
  have d: \<open>imports_array (updateContext d e) = imports_array e\<close> for d e
    by (simp add: imports_array_def)
  have f: \<open>map_of (variableDataCollector (resetCollectors (updateContext d e))) name =
       (if name = ''imports'' then map_of (variableDataCollector e) ''imports''
        else if name \<in> fst ` set (variableDataCollector e) then Some [] else None)\<close>
    by (simp add: a)
  have h: \<open>snd (process e d) = resetCollectors (updateContext d e)\<close>
    if \<open>\<forall>b \<in> set (blocks (d_blockTree d)). blockTransformers e (type_key b) = None\<close>
    using that by (simp add: snd_process process_blocks_no_transformers)
  show ?thesis
  proof (intro conjI impI)
    show \<open>map_of (variableDataCollector (resetCollectors e)) name =
     (if name = ''imports'' then map_of (variableDataCollector e) ''imports''
      else if name \<in> fst ` set (variableDataCollector e) then Some [] else None)\<close>
      by (rule a)
    show \<open>map fst (variableDataCollector (resetCollectors e)) = map fst (variableDataCollector e)\<close>
      by (rule b)
    show \<open>imports_array (resetCollectors e) = imports_array e\<close>
      by (rule c)
    show \<open>imports_array (resetCollectors (updateContext d e)) = imports_array e\<close>
      by (simp add: c d)
    show \<open>snd (process e d)
       = snd (process_blocks (resetCollectors (updateContext d e)) (blocks (d_blockTree d)))\<close>
      by (rule snd_process)
    show \<open>map_of (variableDataCollector (resetCollectors (updateContext d e))) name =
       (if name = ''imports'' then map_of (variableDataCollector e) ''imports''
        else if name \<in> fst ` set (variableDataCollector e) then Some [] else None)\<close>
      by (rule f)
    show \<open>imports_array (resetCollectors (updateContext d2 (snd (process e d))))
       = imports_array (snd (process e d))\<close>
      by (simp add: c d)
    show \<open>snd (process e d) = resetCollectors (updateContext d e)\<close>
      if \<open>\<forall>b \<in> set (blocks (d_blockTree d)). blockTransformers e (type_key b) = None\<close>
      using that by (rule h)
    show \<open>imports_array (snd (process e d)) = imports_array e\<close>
      if \<open>\<forall>b \<in> set (blocks (d_blockTree d)). blockTransformers e (type_key b) = None\<close>
      using h [OF that] by (simp add: c d)
    show \<open>map_of (variableDataCollector (snd (process e d))) name =
                (if name = ''imports'' then map_of (variableDataCollector e) ''imports''
                 else if name \<in> fst ` set (variableDataCollector e) then Some [] else None)\<close>
      if \<open>\<forall>b \<in> set (blocks (d_blockTree d)). blockTransformers e (type_key b) = None\<close>
      using h [OF that] f by simp
  qed
qed

lemmas image_defs = image_plugin_def image_transformer_def image_data_def text_data_def
  createBlockTransformer_def new_plugin_eq initial_plugin_def updateContext_def
  resetCollectors_def imports_array_def variableDataCollector_def set_collectors_def
  processBlock_def type_key_def blockContext_def spread_def addImports_def addToCollector_def
  addVariable_def has_collector_def push_import_def Let_def

theorem resetCollectors_keeps_imports_witness:
  \<open>variableDataCollector (snd (process image_plugin image_data))
      = [(''imports'', [''ImageComponent'']), (''content'', [''<Image />'']),
         (''imports}}}'', []), (''content}}}'', [])]
   \<and> blocks (d_blockTree text_data) = [Block (Some ''paragraph'') [] []]
   \<and> blockTransformers (snd (process image_plugin image_data))
        (type_key (Block (Some ''paragraph'') [] [])) = None
   \<and> imports_array (snd (process (snd (process image_plugin image_data)) text_data))
      = [''ImageComponent'']
   \<and> map_of (variableDataCollector (snd (process (snd (process image_plugin image_data)) text_data)))
        ''content'' = Some []\<close>
proof -
  let ?e1 = \<open>snd (process image_plugin image_data)\<close>
  have v: \<open>variableDataCollector ?e1
      = [(''imports'', [''ImageComponent'']), (''content'', [''<Image />'']),
         (''imports}}}'', []), (''content}}}'', [])]\<close>
    by (simp add: snd_process image_defs)
  have t: \<open>blockTransformers ?e1 = blockTransformers image_plugin\<close>
    by (simp add: snd_process)
  have bs: \<open>blocks (d_blockTree text_data) = [Block (Some ''paragraph'') [] []]\<close>
    by (simp add: text_data_def)
  have n: \<open>blockTransformers ?e1 (type_key (Block (Some ''paragraph'') [] [])) = None\<close>
    by (simp add: t) (simp add: image_defs)
  have h: \<open>\<forall>b \<in> set (blocks (d_blockTree text_data)). blockTransformers ?e1 (type_key b) = None\<close>
    by (simp add: bs n)
  note w = resetCollectors_keeps_imports [of ?e1 \<open>''content''\<close> text_data text_data]
  from w h have i: \<open>imports_array (snd (process ?e1 text_data)) = imports_array ?e1\<close>
    by blast
  from w h have \<open>map_of (variableDataCollector (snd (process ?e1 text_data))) ''content'' =
                (if ''content'' = ''imports'' then map_of (variableDataCollector ?e1) ''imports''
                 else if ''content'' \<in> fst ` set (variableDataCollector ?e1) then Some [] else None)\<close>
    by blast
  then have c: \<open>map_of (variableDataCollector (snd (process ?e1 text_data))) ''content'' = Some []\<close>
    by (simp add: v)
  from i have \<open>imports_array (snd (process ?e1 text_data)) = [''ImageComponent'']\<close>
    by (simp add: imports_array_def [of ?e1] v)
  with v bs n c show ?thesis by blast
qed



text \<open>
  C5: for a block whose type tag has no registered block transformer, \<open>processBlock\<close>
  resolves with the empty string and leaves the whole engine, every collector and
  the imports among them, as it was.
\<close>

theorem processBlock_without_transformer:
  \<open>blockTransformers e (type_key b) = None \<Longrightarrow> processBlock e b md = (Inr [], e)\<close>
  by (simp add: processBlock_def)

theorem processBlock_without_transformer_witness:
  \<open>blockTransformers new_plugin (type_key (Block (Some ''paragraph'') [] [])) = None
   \<and> processBlock new_plugin (Block (Some ''paragraph'') [] []) None = (Inr [], new_plugin)\<close>
proof -
  have h: \<open>blockTransformers new_plugin (type_key (Block (Some ''paragraph'') [] [])) = None\<close>
    by (simp add: new_plugin_eq initial_plugin_def)
  from h processBlock_without_transformer [OF h, of None] show ?thesis by simp
qed

text \<open>
  C6: for every span with a link (a non-empty \<open>href\<close>) and a transformer registered
  under \<open>link\<close>, the span's output is that transformer applied to the result of the
  whole annotation cascade.  With \<open>bold\<close> and \<open>italic\<close> first among the entries and
  active, and no other active entry with a transformer, the output is
  \<open>link(italic(bold(text)))\<close>.  In a list of spans that all resolve,
  \<open>processRichText\<close> returns the spans' outputs concatenated in input order, the
  linked span's output in its place.
\<close>

theorem link_applied_last:
  assumes \<open>href item = Some url\<close> and \<open>url \<noteq> []\<close>
    and \<open>annotationTransformers e ''link'' = Some linkT\<close>
  shows \<open>processRichTextItem e md item =
           (case apply_annotations e item md (annotations item) (plain_text item) of
              Inl err \<Rightarrow> Inl err
            | Inr t \<Rightarrow> linkT \<lparr>a_text = t, a_annotations = None, a_link = Some url, a_metadata = None\<rparr>)
     \<and> processRichText e [item] md =
           (case apply_annotations e item md (annotations item) (plain_text item) of
              Inl err \<Rightarrow> Inl err
            | Inr t \<Rightarrow> linkT \<lparr>a_text = t, a_annotations = None, a_link = Some url, a_metadata = None\<rparr>)
     \<and> (annotations item = (''bold'', bv) # (''italic'', iv) # rest
          \<and> truthy bv \<and> truthy iv
          \<and> (\<forall>(n, v) \<in> set rest. \<not> truthy v \<or> annotationTransformers e n = None)
          \<and> annotationTransformers e ''bold'' = Some boldT
          \<and> annotationTransformers e ''italic'' = Some italicT
          \<and> boldT \<lparr>a_text = plain_text item, a_annotations = Some (annotations item),
                    a_link = None, a_metadata = md\<rparr> = Inr t1
          \<and> italicT \<lparr>a_text = t1, a_annotations = Some (annotations item),
                      a_link = None, a_metadata = md\<rparr> = Inr t2
        \<longrightarrow> processRichTextItem e md item =
              linkT \<lparr>a_text = t2, a_annotations = None, a_link = Some url, a_metadata = None\<rparr>
            \<and> processRichText e [item] md =
              linkT \<lparr>a_text = t2, a_annotations = None, a_link = Some url, a_metadata = None\<rparr>)
     \<and> (map (processRichTextItem e md) spans_before = map Inr outs_before
          \<and> processRichTextItem e md item = Inr out
          \<and> map (processRichTextItem e md) spans_after = map Inr outs_after
        \<longrightarrow> processRichText e (spans_before @ item # spans_after) md
              = Inr (concat outs_before @ out @ concat outs_after))\<close>
proof -
  have a: \<open>processRichTextItem e md item =
           (case apply_annotations e item md (annotations item) (plain_text item) of
              Inl err \<Rightarrow> Inl err
            | Inr t \<Rightarrow> linkT \<lparr>a_text = t, a_annotations = None, a_link = Some url, a_metadata = None\<rparr>)\<close>
    using assms by (simp add: processRichTextItem_def split: sum.splits)
  have b: \<open>processRichTextItem e md item =
              linkT \<lparr>a_text = t2, a_annotations = None, a_link = Some url, a_metadata = None\<rparr>\<close>
    if h: \<open>annotations item = (''bold'', bv) # (''italic'', iv) # rest
          \<and> truthy bv \<and> truthy iv
          \<and> (\<forall>(n, v) \<in> set rest. \<not> truthy v \<or> annotationTransformers e n = None)
          \<and> annotationTransformers e ''bold'' = Some boldT
          \<and> annotationTransformers e ''italic'' = Some italicT
          \<and> boldT \<lparr>a_text = plain_text item, a_annotations = Some (annotations item),
                    a_link = None, a_metadata = md\<rparr> = Inr t1
          \<and> italicT \<lparr>a_text = t1, a_annotations = Some (annotations item),
                      a_link = None, a_metadata = md\<rparr> = Inr t2\<close>
  proof -
    from h have ann: \<open>annotations item = (''bold'', bv) # (''italic'', iv) # rest\<close>
      and flags: \<open>truthy bv\<close> \<open>truthy iv\<close>
      and reg: \<open>annotationTransformers e ''bold'' = Some boldT\<close>
        \<open>annotationTransformers e ''italic'' = Some italicT\<close>
      and bold: \<open>boldT \<lparr>a_text = plain_text item, a_annotations = Some (annotations item),
                    a_link = None, a_metadata = md\<rparr> = Inr t1\<close>
      and italic: \<open>italicT \<lparr>a_text = t1, a_annotations = Some (annotations item),
                      a_link = None, a_metadata = md\<rparr> = Inr t2\<close>
      by blast+
    from h have r: \<open>apply_annotations e item md rest t2 = Inr t2\<close>
      by (intro apply_annotations_inactive) simp
    have \<open>apply_annotations e item md ((''bold'', bv) # (''italic'', iv) # rest) (plain_text item)
        = Inr t2\<close>
      by (simp add: flags reg bold italic r)
    then have \<open>apply_annotations e item md (annotations item) (plain_text item) = Inr t2\<close>
      by (simp only: ann)
    with a show ?thesis by simp
  qed
  have l: \<open>processRichText e (spans_before @ item # spans_after) md
              = Inr (concat outs_before @ out @ concat outs_after)\<close>
    if h: \<open>map (processRichTextItem e md) spans_before = map Inr outs_before
          \<and> processRichTextItem e md item = Inr out
          \<and> map (processRichTextItem e md) spans_after = map Inr outs_after\<close>
  proof -
    from h have \<open>map (processRichTextItem e md) (spans_before @ item # spans_after)
        = map Inr (outs_before @ out # outs_after)\<close>
      by simp
    then have \<open>processRichText e (spans_before @ item # spans_after) md
        = Inr (concat (outs_before @ out # outs_after))\<close>
      by (rule processRichText_resolved)
    then show ?thesis by simp
  qed
  show ?thesis
  proof (intro conjI impI)
    show \<open>processRichTextItem e md item =
           (case apply_annotations e item md (annotations item) (plain_text item) of
              Inl err \<Rightarrow> Inl err
            | Inr t \<Rightarrow> linkT \<lparr>a_text = t, a_annotations = None, a_link = Some url, a_metadata = None\<rparr>)\<close>
      by (rule a)
    show \<open>processRichText e [item] md =
           (case apply_annotations e item md (annotations item) (plain_text item) of
              Inl err \<Rightarrow> Inl err
            | Inr t \<Rightarrow> linkT \<lparr>a_text = t, a_annotations = None, a_link = Some url, a_metadata = None\<rparr>)\<close>
      by (simp only: processRichText_single a)
  next
    assume h: \<open>annotations item = (''bold'', bv) # (''italic'', iv) # rest
          \<and> truthy bv \<and> truthy iv
          \<and> (\<forall>(n, v) \<in> set rest. \<not> truthy v \<or> annotationTransformers e n = None)
          \<and> annotationTransformers e ''bold'' = Some boldT
          \<and> annotationTransformers e ''italic'' = Some italicT
          \<and> boldT \<lparr>a_text = plain_text item, a_annotations = Some (annotations item),
                    a_link = None, a_metadata = md\<rparr> = Inr t1
          \<and> italicT \<lparr>a_text = t1, a_annotations = Some (annotations item),
                      a_link = None, a_metadata = md\<rparr> = Inr t2\<close>
    show \<open>processRichTextItem e md item =
              linkT \<lparr>a_text = t2, a_annotations = None, a_link = Some url, a_metadata = None\<rparr>\<close>
      using h by (rule b)
    show \<open>processRichText e [item] md =
              linkT \<lparr>a_text = t2, a_annotations = None, a_link = Some url, a_metadata = None\<rparr>\<close>
      using b [OF h] by (simp only: processRichText_single)
  next
    assume \<open>map (processRichTextItem e md) spans_before = map Inr outs_before
          \<and> processRichTextItem e md item = Inr out
          \<and> map (processRichTextItem e md) spans_after = map Inr outs_after\<close>
    then show \<open>processRichText e (spans_before @ item # spans_after) md
              = Inr (concat outs_before @ out @ concat outs_after)\<close>
      by (rule l)
  qed
qed

theorem link_applied_last_witness:
  \<open>href hello_span = Some ''https://example.com''
   \<and> ''https://example.com'' \<noteq> []
   \<and> annotationTransformers mdx_plugin ''link'' = Some mdx_link
   \<and> annotationTransformers mdx_plugin ''bold'' = Some mdx_bold
   \<and> annotationTransformers mdx_plugin ''italic'' = Some mdx_italic
   \<and> processRichTextItem mdx_plugin None hello_span = Inr ''[***Hello***](https://example.com)''
   \<and> processRichText mdx_plugin [hello_span] None = Inr ''[***Hello***](https://example.com)''
   \<and> map (processRichTextItem mdx_plugin None) [plain_span] = map Inr [''Say '']
   \<and> map (processRichTextItem mdx_plugin None) [plain_span, plain_span] = map Inr [''Say '', ''Say '']
   \<and> processRichText mdx_plugin ([plain_span] @ hello_span # [plain_span, plain_span]) None
       = Inr ''Say [***Hello***](https://example.com)Say Say ''\<close>
proof -
  have h1: \<open>href hello_span = Some ''https://example.com''\<close>
    by (simp add: hello_span_def)
  have h2: \<open>''https://example.com'' \<noteq> []\<close>
    by simp
  have h3: \<open>annotationTransformers mdx_plugin ''link'' = Some mdx_link\<close>
    by (simp add: mdx_plugin_def createAnnotationTransformer_def)
  have h4: \<open>annotationTransformers mdx_plugin ''bold'' = Some mdx_bold\<close>
    by (simp add: mdx_plugin_def createAnnotationTransformer_def)
  have h5: \<open>annotationTransformers mdx_plugin ''italic'' = Some mdx_italic\<close>
    by (simp add: mdx_plugin_def createAnnotationTransformer_def)
  have rest: \<open>\<forall>(n, v) \<in> set [(''strikethrough'', JBool False), (''underline'', JBool False),
                 (''code'', JBool False), (''color'', JStr ''default'')].
             \<not> truthy v \<or> annotationTransformers mdx_plugin n = None\<close>
    by (simp add: mdx_plugin_def createAnnotationTransformer_def new_plugin_eq initial_plugin_def)
  have flag: \<open>truthy (JBool True)\<close>
    by simp
  have ann: \<open>annotations hello_span = (''bold'', JBool True) # (''italic'', JBool True) #
       [(''strikethrough'', JBool False), (''underline'', JBool False),
        (''code'', JBool False), (''color'', JStr ''default'')]\<close>
    by (simp add: hello_span_def)
  have b: \<open>mdx_bold \<lparr>a_text = plain_text hello_span, a_annotations = Some (annotations hello_span),
                    a_link = None, a_metadata = None\<rparr> = Inr ''**Hello**''\<close>
    by (simp add: mdx_bold_def metadata_html_def hello_span_def)
  have i: \<open>mdx_italic \<lparr>a_text = ''**Hello**'', a_annotations = Some (annotations hello_span),
                    a_link = None, a_metadata = None\<rparr> = Inr ''***Hello***''\<close>
    by (simp add: mdx_italic_def metadata_html_def)
  have l: \<open>mdx_link \<lparr>a_text = ''***Hello***'', a_annotations = None,
              a_link = Some ''https://example.com'', a_metadata = None\<rparr>
           = Inr ''[***Hello***](https://example.com)''\<close>
    by (simp add: mdx_link_def metadata_html_def)
  have p1: \<open>map (processRichTextItem mdx_plugin None) [plain_span] = map Inr [''Say '']\<close>
    by (simp add: processRichTextItem_def plain_span_def mdx_plugin_def
        createAnnotationTransformer_def new_plugin_eq initial_plugin_def)
  then have p2: \<open>map (processRichTextItem mdx_plugin None) [plain_span, plain_span]
      = map Inr [''Say '', ''Say '']\<close>
    by simp
  note w = link_applied_last [OF h1 h2 h3, where md = None and bv = \<open>JBool True\<close>
        and iv = \<open>JBool True\<close> and boldT = mdx_bold and italicT = mdx_italic
        and ?t1.0 = \<open>''**Hello**''\<close> and ?t2.0 = \<open>''***Hello***''\<close>
        and rest = \<open>[(''strikethrough'', JBool False), (''underline'', JBool False),
                 (''code'', JBool False), (''color'', JStr ''default'')]\<close>
        and spans_before = \<open>[plain_span]\<close> and outs_before = \<open>[''Say '']\<close>
        and out = \<open>''[***Hello***](https://example.com)''\<close>
        and spans_after = \<open>[plain_span, plain_span]\<close> and outs_after = \<open>[''Say '', ''Say '']\<close>]
  have s: \<open>processRichTextItem mdx_plugin None hello_span =
          mdx_link \<lparr>a_text = ''***Hello***'', a_annotations = None,
              a_link = Some ''https://example.com'', a_metadata = None\<rparr>\<close>
    using w ann rest h4 h5 b i flag by blast
  have s1: \<open>processRichText mdx_plugin [hello_span] None =
          mdx_link \<lparr>a_text = ''***Hello***'', a_annotations = None,
              a_link = Some ''https://example.com'', a_metadata = None\<rparr>\<close>
    using w ann rest h4 h5 b i flag by blast
  from s l have s': \<open>processRichTextItem mdx_plugin None hello_span
      = Inr ''[***Hello***](https://example.com)''\<close>
    by simp
  from w s' p1 p2
  have \<open>processRichText mdx_plugin ([plain_span] @ hello_span # [plain_span, plain_span]) None
       = Inr (concat [''Say ''] @ ''[***Hello***](https://example.com)'' @ concat [''Say '', ''Say ''])\<close>
    by blast
  then have m: \<open>processRichText mdx_plugin ([plain_span] @ hello_span # [plain_span, plain_span]) None
       = Inr ''Say [***Hello***](https://example.com)Say Say ''\<close>
    by simp
  from s1 l have \<open>processRichText mdx_plugin [hello_span] None = Inr ''[***Hello***](https://example.com)''\<close>
    by simp
  with h1 h2 h3 h4 h5 s' p1 p2 m show ?thesis by blast
qed

text \<open>
  C7: for a span with a link (a non-empty \<open>href\<close>) and no transformer registered
  under \<open>link\<close>, the span's callback rejects, and so does \<open>processRichText\<close> on
  every list of spans that holds it; when the span's cascade goes through, the
  rejection of \<open>processRichText\<close> on the span is the \<open>TypeError\<close> of reading
  \<open>transform\<close> of \<open>undefined\<close>.
\<close>

theorem link_without_transformer_raises:
  assumes \<open>href item = Some url\<close> and \<open>url \<noteq> []\<close>
    and \<open>annotationTransformers e ''link'' = None\<close>
  shows \<open>(\<exists>err. processRichTextItem e md item = Inl err)
    \<and> (item \<in> set richText \<longrightarrow> (\<exists>err. processRichText e richText md = Inl err))
    \<and> (\<forall>t. apply_annotations e item md (annotations item) (plain_text item) = Inr t
          \<longrightarrow> processRichText e [item] md = Inl link_TypeError)\<close>
proof -
  have \<open>\<exists>err. processRichTextItem e md item = Inl err\<close>
    using assms
    by (cases \<open>apply_annotations e item md (annotations item) (plain_text item)\<close>)
       (simp_all add: processRichTextItem_def)
  then obtain err where err: \<open>processRichTextItem e md item = Inl err\<close>
    by blast
  have \<open>\<exists>err. processRichText e richText md = Inl err\<close> if \<open>item \<in> set richText\<close>
  proof -
    from that err have \<open>Inl err \<in> set (map (processRichTextItem e md) richText)\<close>
      by force
    then obtain err' where \<open>promise_all (map (processRichTextItem e md) richText) = Inl err'\<close>
      using promise_all_rejects by blast
    then show ?thesis by (simp add: processRichText_def)
  qed
  moreover have \<open>processRichText e [item] md = Inl link_TypeError\<close>
    if \<open>apply_annotations e item md (annotations item) (plain_text item) = Inr t\<close> for t
    using that assms by (simp add: processRichText_def processRichTextItem_def)
  ultimately show ?thesis using err by blast
qed

theorem link_without_transformer_raises_witness:
  \<open>href hello_span = Some ''https://example.com''
   \<and> ''https://example.com'' \<noteq> []
   \<and> annotationTransformers new_plugin ''link'' = None
   \<and> apply_annotations new_plugin hello_span None (annotations hello_span) (plain_text hello_span)
       = Inr ''Hello''
   \<and> processRichText new_plugin [hello_span] None = Inl link_TypeError\<close>
proof -
  have h1: \<open>href hello_span = Some ''https://example.com''\<close>
    by (simp add: hello_span_def)
  have h2: \<open>''https://example.com'' \<noteq> []\<close>
    by simp
  have h3: \<open>annotationTransformers new_plugin ''link'' = None\<close>
    by (simp add: new_plugin_eq initial_plugin_def)
  have h4: \<open>apply_annotations new_plugin hello_span None (annotations hello_span) (plain_text hello_span)
       = Inr ''Hello''\<close>
    by (simp add: hello_span_def new_plugin_eq initial_plugin_def)
  from link_without_transformer_raises [OF h1 h2 h3, of None \<open>[]\<close>] h4
  have \<open>processRichText new_plugin [hello_span] None = Inl link_TypeError\<close>
    by blast
  with h1 h2 h3 h4 show ?thesis by blast
qed

text \<open>
  C8: each \<open>process\<close> call, whether it resolves or rejects, leaves the context
  metadata it found overlaid by the call's incoming metadata.  After two calls a key
  has the second call's incoming value if there is one, else the first call's
  incoming value if there is one, else the value it had before; and this merged
  metadata is what the second call's top-level blocks get in their context.
\<close>

theorem process_metadata_overlay:
  \<open>metadata (ctx (snd (process e d1))) = metadata (ctx e) ++ spread (d_metadata d1)
   \<and> metadata (ctx (snd (process (snd (process e d1)) d2)))
       = metadata (ctx (snd (process e d1))) ++ spread (d_metadata d2)
   \<and> metadata (ctx (snd (process (snd (process e d1)) d2))) k
       = (case spread (d_metadata d2) k of
            Some v \<Rightarrow> Some v
          | None \<Rightarrow> (case spread (d_metadata d1) k of Some v \<Rightarrow> Some v | None \<Rightarrow> metadata (ctx e) k))
   \<and> metadata (blockContext (resetCollectors (updateContext d2 (snd (process e d1)))) b None)
       = metadata (ctx (snd (process e d1))) ++ spread (d_metadata d2)\<close>
  by (simp add: metadata_process blockContext_def map_add_def spread_def [of None] split: option.splits)

text \<open>
  C9: \<open>addImports\<close> appends a value to the \<open>imports\<close> collector exactly when the
  collector does not hold it yet, value after value; calling it again with the same
  values changes nothing; afterwards the collector holds what it held and the new
  values; and a collector without duplicates stays so under any sequence of
  \<open>addImports\<close> calls.
\<close>

theorem addImports_deduplicates:
  \<open>imports_array (addImports [v] e) =
      (if v \<in> set (imports_array e) then imports_array e else imports_array e @ [v])
   \<and> imports_array (addImports (v # vs) e) = imports_array (addImports vs (addImports [v] e))
   \<and> addImports vs (addImports vs e) = addImports vs e
   \<and> set (imports_array (addImports vs e)) = set (imports_array e) \<union> set vs
   \<and> (distinct (imports_array e) \<longrightarrow> distinct (imports_array (fold addImports calls e)))\<close>
  by (simp add: imports_array_addImports addImports_twice set_fold_push_import
      distinct_imports_after_calls push_import_def)

theorem addImports_deduplicates_witness:
  \<open>distinct (imports_array new_plugin)
   \<and> distinct (imports_array (fold addImports [[''A'', ''B'', ''A''], [''B'', ''C'']] new_plugin))
   \<and> imports_array (fold addImports [[''A'', ''B'', ''A''], [''B'', ''C'']] new_plugin)
       = [''A'', ''B'', ''C'']\<close>
proof -
  have h: \<open>distinct (imports_array new_plugin)\<close>
    by (simp add: imports_array_def new_plugin_eq initial_plugin_def variableDataCollector_def)
  have v: \<open>imports_array (fold addImports [[''A'', ''B'', ''A''], [''B'', ''C'']] new_plugin)
       = [''A'', ''B'', ''C'']\<close>
    by (simp add: imports_array_addImports push_import_def)
       (simp add: imports_array_def new_plugin_eq initial_plugin_def variableDataCollector_def)
  from addImports_deduplicates [of _ new_plugin _ \<open>[[''A'', ''B'', ''A''], [''B'', ''C'']]\<close>] h
  have \<open>distinct (imports_array (fold addImports [[''A'', ''B'', ''A''], [''B'', ''C'']] new_plugin))\<close>
    by blast
  with h v show ?thesis by blast
qed

text \<open>
  C10: \<open>formatYamlValue\<close> escapes double quotes only when its top-level input is a
  string.  The one-element array holding \<open>a"b\<close> comes back as \<open>["a"b"]\<close>, the quote
  left as it is between the element's surrounding quotes, while the string \<open>a"b\<close>
  passed directly comes back as \<open>"a\"b"\<close>; for any string element the array branch
  inserts the text unchanged.
\<close>

theorem formatYamlValue_array_unescaped:
  \<open>formatYamlValue (JArr [JStr ''a"b'']) = [CHR ''['', CHR 0x22, CHR ''a'', CHR 0x22, CHR ''b'', CHR 0x22, CHR '']'']
   \<and> formatYamlValue (JStr ''a"b'') = [CHR 0x22, CHR ''a'', CHR 0x5C, CHR 0x22, CHR ''b'', CHR 0x22]
   \<and> formatYamlValue (JArr [JStr s]) = ''['' @ [CHR 0x22] @ s @ [CHR 0x22] @ '']''
   \<and> formatYamlValue (JStr s) = [CHR 0x22] @ escape_quotes s @ [CHR 0x22]\<close>
  by simp

end
